theory Spec2Isabelle
  imports Main
begin

section \<open>Python strings\<close>

text \<open>
  A Python \<open>str\<close> is modelled as a \<open>string\<close>: a list of characters, each read as the
  code point of the same number (U+0000 to U+00FF). The string methods used by
  \<open>compare.py\<close> are written out below on that range.
\<close>

text \<open>\<open>str.isspace\<close> on one character: the code points below U+0100 that Python counts
  as whitespace, which is what \<open>str.rstrip()\<close> without argument removes.\<close>

definition isspace :: "char \<Rightarrow> bool" where
  "isspace c = (c \<in> set
     [CHR 0x09, CHR 0x0A, CHR 0x0B, CHR 0x0C, CHR 0x0D, CHR 0x1C, CHR 0x1D, CHR 0x1E,
      CHR 0x1F, CHR 0x20, CHR 0x85, CHR 0xA0])"

text \<open>\<open>line.rstrip()\<close>\<close>

definition rstrip :: "string \<Rightarrow> string" where
  "rstrip s = rev (dropWhile isspace (rev s))"

text \<open>\<open>s.lstrip(c)\<close> and \<open>s.rstrip(c)\<close> for a one-character argument: every leading
  (trailing) occurrence of the character goes, not only the first.\<close>

definition lstrip_char :: "char \<Rightarrow> string \<Rightarrow> string" where
  "lstrip_char c s = dropWhile (\<lambda>x. x = c) s"

definition rstrip_char :: "char \<Rightarrow> string \<Rightarrow> string" where
  "rstrip_char c s = rev (dropWhile (\<lambda>x. x = c) (rev s))"

definition startswith :: "string \<Rightarrow> string \<Rightarrow> bool" where
  "startswith s p = (take (length p) s = p)"

definition endswith :: "string \<Rightarrow> string \<Rightarrow> bool" where
  "endswith s p = (length p \<le> length s \<and> drop (length s - length p) s = p)"

text \<open>\<open>s.split(c)\<close> with an explicit one-character separator: the string is cut at every
  occurrence of the separator, empty pieces are kept, and the result is never empty.\<close>

fun split_sep :: "char \<Rightarrow> string \<Rightarrow> string list" where
  "split_sep c [] = [[]]"
| "split_sep c (x # xs) =
     (if x = c then [] # split_sep c xs
      else (case split_sep c xs of
              [] \<Rightarrow> [[x]]
            | w # ws \<Rightarrow> (x # w) # ws))"

text \<open>\<open>str.lower\<close>: the upper-case letters below U+0100 are A to Z and U+00C0 to U+00DE
  without the multiplication sign U+00D7; each is 32 below its lower-case letter.\<close>

definition lower_char :: "char \<Rightarrow> char" where
  "lower_char c =
     (let n = (of_char c :: nat) in
      if (65 \<le> n \<and> n \<le> 90) \<or> (192 \<le> n \<and> n \<le> 222 \<and> n \<noteq> 215)
      then char_of (n + 32) else c)"

definition lower :: "string \<Rightarrow> string" where
  "lower s = map lower_char s"

text \<open>\<open>sep.join(parts)\<close>\<close>

fun str_join :: "string \<Rightarrow> string list \<Rightarrow> string" where
  "str_join s [] = []"
| "str_join s [p] = p"
| "str_join s (p # q # ps) = p @ s @ str_join s (q # ps)"

section \<open>\<open>os.path\<close> on POSIX\<close>

text \<open>\<open>os.path.sep\<close>\<close>

definition sep :: string where
  "sep = ''/''"

text \<open>\<open>p.rfind(c)\<close>: the index of the last occurrence, or \<open>-1\<close>.\<close>

definition rfind :: "string \<Rightarrow> char \<Rightarrow> int" where
  "rfind p c =
     (if c \<in> set p
      then int (length p) - 1 - int (length (takeWhile (\<lambda>x. x \<noteq> c) (rev p)))
      else - 1)"

text \<open>
  \<open>os.path.split\<close> of the standard library (\<open>posixpath\<close>):
  \<^verbatim>\<open>
    i = p.rfind(sep) + 1
    head, tail = p[:i], p[i:]
    if head and head != sep*len(head):
        head = head.rstrip(sep)
    return head, tail
  \<close>
\<close>

definition posixpath_split :: "string \<Rightarrow> string \<times> string" where
  "posixpath_split p =
     (let i = nat (rfind p CHR ''/'' + 1);
          head = take i p;
          tail = drop i p
      in (if head \<noteq> [] \<and> head \<noteq> replicate (length head) CHR ''/''
          then rstrip_char CHR ''/'' head else head, tail))"

section \<open>\<open>PathParser\<close>\<close>

record PathParser =
  base_path :: "string option"

text \<open>\<open>PathParser()\<close>: the class attribute \<open>_base_path = None\<close> is what a fresh instance
  reads; \<open>parse\<close> assigns to the instance, so instances share nothing.\<close>

definition PathParser_init :: PathParser where
  "PathParser_init = \<lparr>base_path = None\<rparr>"

text \<open>
  \<open>PathParser.parse\<close>. \<open>split(path)[:-1]\<close> is the one-element tuple of the head, and
  a slice that starts beyond the end of a Python string is the empty string.
\<close>

definition PathParser_parse :: "PathParser \<Rightarrow> string \<Rightarrow> PathParser \<times> string" where
  "PathParser_parse pp path =
     (case base_path pp of
        None \<Rightarrow>
          (let (head, tail) = posixpath_split path;
               b = lstrip_char CHR ''/'' (str_join sep (butlast [head, tail]))
           in (pp\<lparr>base_path := Some b\<rparr>, drop (length b + 1) path))
      | Some b \<Rightarrow> (pp, drop (length b + 1) path))"

section \<open>\<open>Comparer\<close>\<close>

datatype error = KeyError string | AssertionError

text \<open>A \<open>dict\<close> from directory key to list of filenames, in insertion order: an
  association list whose keys are distinct.\<close>

type_synonym listing = "(string \<times> string list) list"

definition dict_keys :: "listing \<Rightarrow> string list" where
  "dict_keys d = map fst d"

text \<open>\<open>d[k] = list()\<close> for a key that is not in \<open>d\<close>: the new key goes last.\<close>

definition dict_insert_new :: "listing \<Rightarrow> string \<Rightarrow> listing" where
  "dict_insert_new d k = d @ [(k, [])]"

text \<open>\<open>d[k].append(v)\<close>: \<open>KeyError\<close> when \<open>k\<close> is not a key of \<open>d\<close>.\<close>

fun dict_append :: "listing \<Rightarrow> string \<Rightarrow> string \<Rightarrow> error + listing" where
  "dict_append [] k v = Inl (KeyError k)"
| "dict_append ((k', fs) # d) k v =
     (if k' = k then Inr ((k', fs @ [v]) # d)
      else (case dict_append d k v of
              Inl e \<Rightarrow> Inl e
            | Inr d' \<Rightarrow> Inr ((k', fs) # d')))"

text \<open>\<open>Comparer.does_line_start_or_end_with_strings\<close>, called with lists of strings
  (a single string argument is the one-element list, \<open>None\<close> the empty list).\<close>

definition does_line_start_or_end_with_strings ::
  "string \<Rightarrow> string list \<Rightarrow> string list \<Rightarrow> bool" where
  "does_line_start_or_end_with_strings line start_strings end_strings =
     (list_ex (startswith line) start_strings \<or> list_ex (endswith line) end_strings)"

text \<open>The state of the loop of \<open>Comparer.parse\<close>.\<close>

record parse_state =
  folder_path :: string
  file_content :: listing
  path_parser :: PathParser

definition parse_init :: parse_state where
  "parse_init = \<lparr>folder_path = [], file_content = [], path_parser = PathParser_init\<rparr>"

text \<open>One iteration of \<open>for line in lines\<close> in \<open>Comparer.parse\<close>.\<close>

definition parse_line :: "parse_state \<Rightarrow> string \<Rightarrow> error + parse_state" where
  "parse_line st raw =
     (let line = rstrip raw in
      if does_line_start_or_end_with_strings line [''.'', ''/''] ['':''] then
        (let (pp, fp) = PathParser_parse (path_parser st)
                          (rstrip_char CHR '':'' (rstrip_char CHR ''/'' line))
         in Inr \<lparr>folder_path = fp,
                 file_content =
                   (if fp \<notin> set (dict_keys (file_content st))
                    then dict_insert_new (file_content st) fp else file_content st),
                 path_parser = pp\<rparr>)
      else if \<not> does_line_start_or_end_with_strings line [''total''] [] then
        (let file_name =
               last (split_sep CHR '' '' (rstrip_char CHR ''/'' (lstrip_char CHR ''/'' line)))
         in (case dict_append (file_content st) (folder_path st) file_name of
               Inl e \<Rightarrow> Inl e
             | Inr d \<Rightarrow> Inr (st\<lparr>file_content := d\<rparr>)))
      else Inr st)"

fun parse_loop :: "parse_state \<Rightarrow> string list \<Rightarrow> error + parse_state" where
  "parse_loop st [] = Inr st"
| "parse_loop st (l # ls) =
     (case parse_line st l of
        Inl e \<Rightarrow> Inl e
      | Inr st' \<Rightarrow> parse_loop st' ls)"

text \<open>\<open>Comparer.parse\<close>\<close>

definition Comparer_parse :: "string list \<Rightarrow> error + listing" where
  "Comparer_parse lines =
     (case parse_loop parse_init lines of
        Inl e \<Rightarrow> Inl e
      | Inr st \<Rightarrow> Inr (file_content st))"

text \<open>The line appended to \<open>mismatched\<close>:
  \<^verbatim>\<open>f"{left_key.lstrip('/')}/{left_filename.lstrip('/')}\n"\<close>\<close>

definition mismatched_line :: "string \<Rightarrow> string \<Rightarrow> string" where
  "mismatched_line left_key left_filename =
     lstrip_char CHR ''/'' left_key @ ''/'' @ lstrip_char CHR ''/'' left_filename @ [CHR 0x0A]"

text \<open>The condition of line 213:
  \<^verbatim>\<open>left_key.lstrip('/').lower() == right_key.lstrip('/').lower()\<close>\<close>

definition keys_match :: "string \<Rightarrow> string \<Rightarrow> bool" where
  "keys_match left_key right_key =
     (lower (lstrip_char CHR ''/'' left_key) = lower (lstrip_char CHR ''/'' right_key))"

text \<open>The three nested loops of \<open>Comparer.find_mismatched_left\<close>, innermost first; the
  last argument is the list \<open>mismatched\<close> built so far.\<close>

fun filename_loop :: "string \<Rightarrow> string list \<Rightarrow> string list \<Rightarrow> string list \<Rightarrow> string list" where
  "filename_loop left_key right_filenames [] mismatched = mismatched"
| "filename_loop left_key right_filenames (left_filename # fs) mismatched =
     filename_loop left_key right_filenames fs
       (if left_filename \<notin> set right_filenames
        then mismatched @ [mismatched_line left_key left_filename]
        else mismatched)"

fun right_loop :: "string \<Rightarrow> string list \<Rightarrow> listing \<Rightarrow> string list \<Rightarrow> string list" where
  "right_loop left_key left_filenames [] mismatched = mismatched"
| "right_loop left_key left_filenames ((right_key, right_filenames) # rs) mismatched =
     right_loop left_key left_filenames rs
       (if keys_match left_key right_key
        then filename_loop left_key right_filenames left_filenames mismatched
        else mismatched)"

fun left_loop :: "listing \<Rightarrow> listing \<Rightarrow> string list \<Rightarrow> string list" where
  "left_loop [] right mismatched = mismatched"
| "left_loop ((left_key, left_filenames) # ls) right mismatched =
     left_loop ls right (right_loop left_key left_filenames right mismatched)"

text \<open>\<open>ProgressBar.__init__\<close> (\<open>tools.py\<close>) asserts \<open>maximum > minimum\<close>; the rest of the
  progress bar prints and changes no result.\<close>

definition ProgressBar_init :: "int \<Rightarrow> int \<Rightarrow> error + unit" where
  "ProgressBar_init maximum minimum = (if maximum > minimum then Inr () else Inl AssertionError)"

text \<open>\<open>Comparer.find_mismatched_left\<close>: the progress bar is created with maximum
  \<open>len(left) * len(right)\<close> and minimum 0 before the loops run.\<close>

definition find_mismatched_left :: "listing \<Rightarrow> listing \<Rightarrow> error + string list" where
  "find_mismatched_left left right =
     (case ProgressBar_init (int (length left) * int (length right)) 0 of
        Inl e \<Rightarrow> Inl e
      | Inr _ \<Rightarrow> Inr (left_loop left right []))"

section \<open>The scenario of section 8\<close>

definition scenario_left :: "string list" where
  "scenario_left =
     [''./root/sub1:'', ''total 2'', ''x.txt'', ''y.txt'', ''./root/sub2:'', ''total 1'', ''z.txt'']"

definition scenario_right :: "string list" where
  "scenario_right =
     [''./root/sub1:'', ''total 1'', ''x.txt'', ''./root/sub3:'', ''total 1'', ''w.txt'']"

section \<open>Line classes and the wording of the specification\<close>

text \<open>The three branches of the loop body of \<open>Comparer.parse\<close>, as conditions on the
  raw line: the first \<open>if\<close> (header), the \<open>total\<close> test of the \<open>elif\<close> (summary), and
  what is left. A line is blank when nothing remains of it after \<open>rstrip()\<close>.\<close>

definition is_header_line :: "string \<Rightarrow> bool" where
  "is_header_line raw = does_line_start_or_end_with_strings (rstrip raw) [''.'', ''/''] ['':'']"

definition is_summary_line :: "string \<Rightarrow> bool" where
  "is_summary_line raw =
     (\<not> is_header_line raw \<and> does_line_start_or_end_with_strings (rstrip raw) [''total''] [])"

definition is_entry_line :: "string \<Rightarrow> bool" where
  "is_entry_line raw = (rstrip raw \<noteq> [] \<and> \<not> is_header_line raw \<and> \<not> is_summary_line raw)"

text \<open>The expression assigned to \<open>file_name\<close> in the \<open>elif\<close> branch.\<close>

definition entry_file_name :: "string \<Rightarrow> string" where
  "entry_file_name raw =
     last (split_sep CHR '' '' (rstrip_char CHR ''/'' (lstrip_char CHR ''/'' (rstrip raw))))"

text \<open>The invariant of the loop of \<open>Comparer.parse\<close>: either nothing has been registered
  yet and the current directory is still the initial empty string, or the current
  directory is a key of the mapping.\<close>

definition parse_inv :: "parse_state \<Rightarrow> bool" where
  "parse_inv st \<longleftrightarrow>
     (folder_path st = [] \<and> file_content st = []) \<or>
     folder_path st \<in> set (dict_keys (file_content st))"

text \<open>The specification's wording of the filename of an entry line (section 4.2): the
  last whitespace-separated token, that is the last maximal run of characters that are
  not whitespace.\<close>

definition spec_last_whitespace_token :: "string \<Rightarrow> string" where
  "spec_last_whitespace_token s =
     rev (takeWhile (\<lambda>c. \<not> isspace c) (dropWhile isspace (rev s)))"

text \<open>The specification's wording of directory matching (section 4.3): equal
  case-insensitively after stripping one leading separator from each key.\<close>

definition spec_strip_one_leading_separator :: "string \<Rightarrow> string" where
  "spec_strip_one_leading_separator k =
     (case k of [] \<Rightarrow> [] | c # cs \<Rightarrow> if c = CHR ''/'' then cs else k)"

definition spec_keys_matched :: "string \<Rightarrow> string \<Rightarrow> bool" where
  "spec_keys_matched left_key right_key =
     (lower (spec_strip_one_leading_separator left_key) =
      lower (spec_strip_one_leading_separator right_key))"

section \<open>Facts about the loops\<close>

lemma filename_loop_eq:
  "filename_loop lk gs fs acc = acc @ map (mismatched_line lk) (filter (\<lambda>f. f \<notin> set gs) fs)"
  by (induction fs arbitrary: acc) simp_all

lemma right_loop_eq:
  "right_loop lk fs right acc =
     acc @ concat (map (\<lambda>(rk, gs). map (mismatched_line lk) (filter (\<lambda>f. f \<notin> set gs) fs))
                       (filter (\<lambda>(rk, gs). keys_match lk rk) right))"
  by (induction right arbitrary: acc) (auto simp: filename_loop_eq)

lemma left_loop_eq:
  "left_loop left right acc =
     acc @ concat (map (\<lambda>(lk, fs). right_loop lk fs right []) left)"
proof (induction left arbitrary: acc)
  case Nil
  then show ?case by simp
next
  case (Cons p left)
  obtain lk fs where p: "p = (lk, fs)" by (cases p)
  have "right_loop lk fs right acc = acc @ right_loop lk fs right []"
    by (simp add: right_loop_eq)
  then show ?case using Cons p by simp
qed


lemma find_mismatched_left_Inr:
  "find_mismatched_left left right = Inr out \<longleftrightarrow>
     left \<noteq> [] \<and> right \<noteq> [] \<and> out = left_loop left right []"
  by (auto simp: find_mismatched_left_def ProgressBar_init_def zero_less_mult_iff)


lemma lstrip_char_no_lead: "\<not> startswith (lstrip_char c s) [c]"
proof (cases "dropWhile (\<lambda>x. x = c) s")
  case Nil
  show ?thesis unfolding startswith_def lstrip_char_def Nil by simp
next
  case (Cons x xs)
  then have "x \<noteq> c" using hd_dropWhile[of "\<lambda>x. x = c" s] by simp
  then show ?thesis unfolding startswith_def lstrip_char_def Cons by simp
qed

lemma left_loop_set:
  "s \<in> set (left_loop left right []) \<Longrightarrow>
     \<exists>lk fs f. (lk, fs) \<in> set left \<and> f \<in> set fs \<and> s = mismatched_line lk f"
  by (auto simp: left_loop_eq right_loop_eq)

lemma split_sep_not_Nil: "split_sep c s \<noteq> []"
  by (induction s) (auto split: list.splits)

lemma split_sep_no_sep: "c \<notin> set s \<Longrightarrow> split_sep c s = [s]"
  by (induction s) auto

lemma split_sep_has_sep: "c \<in> set s \<Longrightarrow> tl (split_sep c s) \<noteq> []"
  using split_sep_not_Nil[of c] by (induction s) (auto split: list.splits)

lemma last_split_sep:
  "last (split_sep c s) = rev (takeWhile (\<lambda>x. x \<noteq> c) (rev s))"
proof (induction s)
  case Nil
  then show ?case by simp
next
  case (Cons x s)
  show ?case
  proof (cases "x = c")
    case True
    then show ?thesis using Cons split_sep_not_Nil[of c s]
      by (auto simp: takeWhile_append)
  next
    case False
    note xc = this
    show ?thesis
    proof (cases "c \<in> set s")
      case True
      then obtain w w' ws where sp: "split_sep c s = w # w' # ws"
        using split_sep_has_sep[of c s] split_sep_not_Nil[of c s]
        by (cases "split_sep c s"; cases "tl (split_sep c s)") auto
      then show ?thesis using Cons xc True by (auto simp: takeWhile_append)
    next
      case False
      then show ?thesis using xc by (simp add: split_sep_no_sep takeWhile_append)
    qed
  qed
qed

lemma dict_append_Inl:
  "k \<notin> set (dict_keys d) \<Longrightarrow> dict_append d k v = Inl (KeyError k)"
  by (induction d) (auto simp: dict_keys_def)

lemma dict_append_Inr:
  "k \<notin> set (dict_keys d1) \<Longrightarrow>
   dict_append (d1 @ (k, fs) # d2) k v = Inr (d1 @ (k, fs @ [v]) # d2)"
  by (induction d1) (auto simp: dict_keys_def)

lemma parse_line_summary:
  "is_summary_line raw \<Longrightarrow> parse_line st raw = Inr st"
  by (simp add: parse_line_def is_summary_line_def is_header_line_def)

lemma parse_line_other:
  "\<not> is_header_line raw \<Longrightarrow> \<not> is_summary_line raw \<Longrightarrow>
   parse_line st raw =
     (case dict_append (file_content st) (folder_path st) (entry_file_name raw) of
        Inl e \<Rightarrow> Inl e
      | Inr d \<Rightarrow> Inr (st\<lparr>file_content := d\<rparr>))"
  by (simp add: parse_line_def is_summary_line_def is_header_line_def entry_file_name_def)

lemma blank_not_header: "rstrip raw = [] \<Longrightarrow> \<not> is_header_line raw"
  by (simp add: is_header_line_def does_line_start_or_end_with_strings_def
      startswith_def endswith_def)

lemma blank_not_summary: "rstrip raw = [] \<Longrightarrow> \<not> is_summary_line raw"
  by (simp add: is_summary_line_def does_line_start_or_end_with_strings_def
      startswith_def endswith_def)

lemma blank_file_name: "rstrip raw = [] \<Longrightarrow> entry_file_name raw = []"
  by (simp add: entry_file_name_def lstrip_char_def rstrip_char_def)

lemma parse_loop_append:
  "parse_loop st (xs @ ys) =
     (case parse_loop st xs of Inl e \<Rightarrow> Inl e | Inr st' \<Rightarrow> parse_loop st' ys)"
  by (induction xs arbitrary: st) (auto split: sum.splits)


lemma dict_append_keys:
  "dict_append d k v = Inr d' \<Longrightarrow> dict_keys d' = dict_keys d"
  by (induction d arbitrary: d') (auto simp: dict_keys_def split: if_splits sum.splits)

lemma dict_append_error:
  "dict_append d k v = Inl e \<Longrightarrow> e = KeyError k \<and> k \<notin> set (dict_keys d)"
  by (induction d) (force simp: dict_keys_def split: if_splits sum.splits)+

lemma parse_line_inv:
  assumes "parse_inv st"
  shows "(parse_line st raw = Inr st' \<longrightarrow> parse_inv st') \<and>
         (parse_line st raw = Inl e \<longrightarrow> e = KeyError [])"
proof (cases "is_header_line raw")
  case True
  then show ?thesis
    by (force simp: parse_line_def is_header_line_def parse_inv_def dict_keys_def
        dict_insert_new_def Let_def split: prod.splits)
next
  case False
  note nh = this
  show ?thesis
  proof (cases "is_summary_line raw")
    case True
    then show ?thesis using assms by (auto simp: parse_line_summary)
  next
    case False
    have pl: "parse_line st raw =
      (case dict_append (file_content st) (folder_path st) (entry_file_name raw) of
         Inl e \<Rightarrow> Inl e | Inr d \<Rightarrow> Inr (st\<lparr>file_content := d\<rparr>))"
      using nh False by (rule parse_line_other)
    show ?thesis
    proof (cases "dict_append (file_content st) (folder_path st) (entry_file_name raw)")
      case (Inl e')
      then have "e' = KeyError (folder_path st)" "folder_path st \<notin> set (dict_keys (file_content st))"
        using dict_append_error by blast+
      then have "e' = KeyError []" using assms by (auto simp: parse_inv_def)
      then show ?thesis using pl Inl by simp
    next
      case (Inr d)
      then have "dict_keys d = dict_keys (file_content st)" by (rule dict_append_keys)
      moreover have "folder_path st \<in> set (dict_keys (file_content st))"
        using Inr assms by (auto simp: parse_inv_def)
      ultimately show ?thesis using pl Inr by (auto simp: parse_inv_def)
    qed
  qed
qed

lemma parse_loop_error:
  "parse_inv st \<Longrightarrow> parse_loop st lines = Inl e \<Longrightarrow> e = KeyError []"
proof (induction lines arbitrary: st)
  case Nil
  then show ?case by simp
next
  case (Cons l ls)
  show ?case
  proof (cases "parse_line st l")
    case (Inl e')
    then show ?thesis using Cons.prems parse_line_inv[of st l] by auto
  next
    case (Inr st')
    then have "parse_inv st'" using Cons.prems(1) parse_line_inv[of st l st'] by blast
    then show ?thesis using Cons.IH[of st'] Cons.prems(2) Inr by simp
  qed
qed

lemma Comparer_parse_error:
  "Comparer_parse lines = Inl e \<Longrightarrow> e = KeyError []"
proof -
  assume a: "Comparer_parse lines = Inl e"
  have "parse_inv parse_init" by (simp add: parse_inv_def parse_init_def)
  moreover have "parse_loop parse_init lines = Inl e"
    using a by (auto simp: Comparer_parse_def split: sum.splits)
  ultimately show ?thesis by (rule parse_loop_error)
qed

section \<open>The end-to-end scenario\<close>

text \<open>
  C1 (as the code has it). Each side of the scenario of section 8 is parsed with a fresh
  parser; the left listing is \<open>sub1 \<mapsto> [x.txt, y.txt], sub2 \<mapsto> [z.txt]\<close> and the right one
  \<open>sub1 \<mapsto> [x.txt], sub3 \<mapsto> [w.txt]\<close>. \<open>find_mismatched_left\<close> on left and right returns the
  one line \<open>sub1/y.txt\<close> followed by a newline character, and on right and left the empty
  list.
\<close>

theorem scenario_end_to_end:
  "Comparer_parse scenario_left = Inr [(''sub1'', [''x.txt'', ''y.txt'']), (''sub2'', [''z.txt''])] \<and>
   Comparer_parse scenario_right = Inr [(''sub1'', [''x.txt'']), (''sub3'', [''w.txt''])] \<and>
   find_mismatched_left [(''sub1'', [''x.txt'', ''y.txt'']), (''sub2'', [''z.txt''])]
                        [(''sub1'', [''x.txt'']), (''sub3'', [''w.txt''])]
     = Inr [''sub1/y.txt'' @ [CHR 0x0A]] \<and>
   find_mismatched_left [(''sub1'', [''x.txt'']), (''sub3'', [''w.txt''])]
                        [(''sub1'', [''x.txt'', ''y.txt'']), (''sub2'', [''z.txt''])]
     = Inr []"
  by code_simp

text \<open>
  C1 as stated fails: the list returned for the left-to-right direction is not
  \<open>[sub1/y.txt]\<close>, because the one string in it ends with a newline character.
\<close>

theorem scenario_end_to_end_counterexample:
  "Comparer_parse scenario_left = Inr [(''sub1'', [''x.txt'', ''y.txt'']), (''sub2'', [''z.txt''])] \<and>
   Comparer_parse scenario_right = Inr [(''sub1'', [''x.txt'']), (''sub3'', [''w.txt''])] \<and>
   find_mismatched_left [(''sub1'', [''x.txt'', ''y.txt'']), (''sub2'', [''z.txt''])]
                        [(''sub1'', [''x.txt'']), (''sub3'', [''w.txt''])]
     \<noteq> Inr [''sub1/y.txt'']"
  by code_simp

section \<open>The path normalizer\<close>

text \<open>
  C3 (as the code has it). Once the base path of a \<open>PathParser\<close> is set, \<open>parse\<close> never
  fails and never changes the parser: it returns the raw path without its first
  \<open>len(base_path) + 1\<close> characters, which is the empty string when the raw path is shorter
  than that.
\<close>

theorem PathParser_parse_established:
  assumes "base_path pp = Some b"
  shows "PathParser_parse pp raw = (pp, drop (length b + 1) raw) \<and>
         (length raw < length b + 1 \<longrightarrow> PathParser_parse pp raw = (pp, []))"
  using assms by (simp add: PathParser_parse_def)

theorem PathParser_parse_established_witness:
  "base_path \<lparr>base_path = Some ''./root''\<rparr> = Some ''./root'' \<and>
   length ''./a'' < length ''./root'' + 1 \<and>
   PathParser_parse \<lparr>base_path = Some ''./root''\<rparr> ''./a'' = (\<lparr>base_path = Some ''./root''\<rparr>, [])"
proof -
  have h: "base_path \<lparr>base_path = Some ''./root''\<rparr> = Some ''./root''" by simp
  show ?thesis using PathParser_parse_established [OF h, of "''./a''"] by simp
qed

text \<open>
  C3 as stated fails: with the base path \<open>./root\<close> set by a first header, the shorter
  header path \<open>./a\<close> is not an error. \<open>parse\<close> returns the empty string, and the listing
  gets the empty string as a directory key.
\<close>

theorem PathParser_parse_short_counterexample:
  "length ''./a'' < length ''./root'' + 1 \<and>
   PathParser_parse \<lparr>base_path = Some ''./root''\<rparr> ''./a'' = (\<lparr>base_path = Some ''./root''\<rparr>, []) \<and>
   Comparer_parse [''./root/sub1:'', ''./a:''] = Inr [(''sub1'', []), ([], [])]"
  by code_simp

section \<open>The difference engine\<close>

text \<open>
  \<open>find_mismatched_left\<close> raises \<open>AssertionError\<close> exactly when one of the two mappings is
  empty (lemma \<open>find_mismatched_left_Inl\<close>): the progress bar refuses the maximum 0.
  Otherwise it returns the list built by the three loops.
\<close>

text \<open>
  C6 (as the code has it). For non-empty mappings the result is, for each left directory
  in insertion order and within it for each right directory in insertion order, the
  contribution of the pair: the lines of the left filenames that are not in the right
  list when the two keys are equal after removing every leading \<open>/\<close> from each and
  lower-casing, and nothing otherwise. So a pair of keys is treated as matched if and
  only if the keys are equal case-insensitively after stripping all leading separators.
\<close>

theorem keys_match_pairwise:
  assumes "left \<noteq> []" and "right \<noteq> []"
  shows "find_mismatched_left left right =
     Inr (concat (map (\<lambda>(lk, fs). concat (map (\<lambda>(rk, gs).
            if lower (lstrip_char CHR ''/'' lk) = lower (lstrip_char CHR ''/'' rk)
            then map (mismatched_line lk) (filter (\<lambda>f. f \<notin> set gs) fs)
            else []) right)) left))"
proof -
  have r: "right_loop lk fs r [] = concat (map (\<lambda>(rk, gs).
            if lower (lstrip_char CHR ''/'' lk) = lower (lstrip_char CHR ''/'' rk)
            then map (mismatched_line lk) (filter (\<lambda>f. f \<notin> set gs) fs)
            else []) r)" for lk fs r
    unfolding right_loop_eq by (induction r) (auto simp: keys_match_def)
  have "find_mismatched_left left right = Inr (left_loop left right [])"
    using assms by (simp add: find_mismatched_left_Inr)
  then show ?thesis by (simp add: left_loop_eq r)
qed

theorem keys_match_pairwise_witness:
  "[(''/SubA'', [''f'', ''g''])] \<noteq> [] \<and> [(''suba'', [''g'']), (''subb'', [])] \<noteq> [] \<and>
   find_mismatched_left [(''/SubA'', [''f'', ''g''])] [(''suba'', [''g'']), (''subb'', [])] =
     Inr [''SubA/f'' @ [CHR 0x0A]]"
proof -
  have h1: "[(''/SubA'', [''f'', ''g''])] \<noteq> ([] :: listing)" by simp
  have h2: "[(''suba'', [''g'']), (''subb'', [])] \<noteq> ([] :: listing)" by simp
  have e: "concat (map (\<lambda>(lk, fs). concat (map (\<lambda>(rk, gs).
            if lower (lstrip_char CHR ''/'' lk) = lower (lstrip_char CHR ''/'' rk)
            then map (mismatched_line lk) (filter (\<lambda>f. f \<notin> set gs) fs)
            else []) [(''suba'', [''g'']), (''subb'', [])])) [(''/SubA'', [''f'', ''g''])])
        = [''SubA/f'' @ [CHR 0x0A]]" by code_simp
  show ?thesis using keys_match_pairwise [OF h1 h2] unfolding e by simp
qed

text \<open>
  C6 as stated fails: the left key \<open>//a\<close> and the right key \<open>a\<close> differ after one
  leading separator is stripped from each, and the engine matches them.
\<close>

theorem keys_match_counterexample:
  "find_mismatched_left [(''//a'', [''f''])] [(''a'', [])] = Inr [''a/f'' @ [CHR 0x0A]] \<and>
   \<not> spec_keys_matched ''//a'' ''a''"
  by code_simp

text \<open>
  C7. Whatever surrounds it in the left mapping, a left directory contributes the
  concatenation, over all right directories whose key matches, in the right mapping's
  insertion order, of the lines of its filenames missing from that right directory:
  each matching right directory is evaluated on its own and nothing is removed across
  matches. (A matching right directory exists only in a non-empty right mapping.)
\<close>

theorem multiple_matches_accumulate:
  assumes "right \<noteq> []"
  shows "find_mismatched_left (l1 @ (lk, fs) # l2) right =
     Inr (left_loop l1 right [] @
          concat (map (\<lambda>(rk, gs). map (mismatched_line lk) (filter (\<lambda>f. f \<notin> set gs) fs))
                      (filter (\<lambda>(rk, gs). keys_match lk rk) right)) @
          left_loop l2 right [])"
proof -
  have "find_mismatched_left (l1 @ (lk, fs) # l2) right =
          Inr (left_loop (l1 @ (lk, fs) # l2) right [])"
    using assms by (simp add: find_mismatched_left_Inr)
  moreover have "left_loop (l1 @ (lk, fs) # l2) right [] =
          left_loop l1 right [] @ right_loop lk fs right [] @ left_loop l2 right []"
    by (simp add: left_loop_eq)
  ultimately show ?thesis by (simp add: right_loop_eq)
qed

theorem multiple_matches_accumulate_witness:
  "[(''sub'', []), (''SUB'', [''g''])] \<noteq> [] \<and>
   find_mismatched_left ([] @ (''Sub'', [''f'']) # []) [(''sub'', []), (''SUB'', [''g''])] =
     Inr [''Sub/f'' @ [CHR 0x0A], ''Sub/f'' @ [CHR 0x0A]]"
proof -
  have h: "[(''sub'', []), (''SUB'', [''g''])] \<noteq> ([] :: listing)" by simp
  have e: "left_loop [] [(''sub'', []), (''SUB'', [''g''])] [] @
          concat (map (\<lambda>(rk, gs). map (mismatched_line ''Sub'') (filter (\<lambda>f. f \<notin> set gs) [''f'']))
                      (filter (\<lambda>(rk, gs). keys_match ''Sub'' rk) [(''sub'', []), (''SUB'', [''g''])])) @
          left_loop [] [(''sub'', []), (''SUB'', [''g''])] [] = [''Sub/f'' @ [CHR 0x0A], ''Sub/f'' @ [CHR 0x0A]]"
    by code_simp
  show ?thesis
    using multiple_matches_accumulate [OF h, of "[]" "''Sub''" "[''f'']" "[]"] h
    unfolding e by simp
qed





text \<open>
  C10. For non-empty mappings the engine returns, and every string of the result is
  built from a left directory and one of its filenames as key, \<open>/\<close>, filename and a
  newline character, where the filename has lost its leading \<open>/\<close> characters: the
  string ends with the newline and the filename part does not start with \<open>/\<close>.
\<close>

theorem output_lines_shape:
  assumes "left \<noteq> []" and "right \<noteq> []"
  shows "\<exists>out. find_mismatched_left left right = Inr out \<and>
           (\<forall>s \<in> set out. \<exists>lk fs f. (lk, fs) \<in> set left \<and> f \<in> set fs \<and>
              s = lstrip_char CHR ''/'' lk @ ''/'' @ lstrip_char CHR ''/'' f @ [CHR 0x0A] \<and>
              \<not> startswith (lstrip_char CHR ''/'' f) ''/'' \<and>
              endswith s [CHR 0x0A])"
proof -
  have "find_mismatched_left left right = Inr (left_loop left right [])"
    using assms by (simp add: find_mismatched_left_Inr)
  moreover have "\<exists>lk fs f. (lk, fs) \<in> set left \<and> f \<in> set fs \<and>
              s = lstrip_char CHR ''/'' lk @ ''/'' @ lstrip_char CHR ''/'' f @ [CHR 0x0A] \<and>
              \<not> startswith (lstrip_char CHR ''/'' f) ''/'' \<and>
              endswith s [CHR 0x0A]" if sm: "s \<in> set (left_loop left right [])" for s
  proof -
    obtain lk fs f where a: "(lk, fs) \<in> set left" "f \<in> set fs" "s = mismatched_line lk f"
      using left_loop_set[OF sm] by blast
    have "endswith s [CHR 0x0A]" using a(3) by (simp add: mismatched_line_def endswith_def)
    then show ?thesis using a lstrip_char_no_lead[of "CHR ''/''" f]
      by (auto simp: mismatched_line_def)
  qed
  ultimately show ?thesis by blast
qed

theorem output_lines_shape_witness:
  "[(''/d'', [''//f''])] \<noteq> [] \<and> [(''d'', [])] \<noteq> [] \<and>
   find_mismatched_left [(''/d'', [''//f''])] [(''d'', [])] = Inr [''d/f'' @ [CHR 0x0A]] \<and>
   (\<exists>out. find_mismatched_left [(''/d'', [''//f''])] [(''d'', [])] = Inr out \<and>
           (\<forall>s \<in> set out. \<exists>lk fs f. (lk, fs) \<in> set [(''/d'', [''//f''])] \<and> f \<in> set fs \<and>
              s = lstrip_char CHR ''/'' lk @ ''/'' @ lstrip_char CHR ''/'' f @ [CHR 0x0A] \<and>
              \<not> startswith (lstrip_char CHR ''/'' f) ''/'' \<and>
              endswith s [CHR 0x0A]))"
proof -
  have h1: "[(''/d'', [''//f''])] \<noteq> ([] :: listing)" by simp
  have h2: "[(''d'', [])] \<noteq> ([] :: listing)" by simp
  have e: "find_mismatched_left [(''/d'', [''//f''])] [(''d'', [])] = Inr [''d/f'' @ [CHR 0x0A]]"
    by code_simp
  show ?thesis using output_lines_shape [OF h1 h2] e h1 h2 by blast
qed

section \<open>The listing parser\<close>

text \<open>
  C2 (as the code has it). A line that is blank after \<open>rstrip()\<close> is neither a header nor
  a \<open>total\<close> line, so the loop handles it in the entry branch with the empty string as
  filename. At any position of a line sequence, with \<open>st\<close> the state after the lines
  before it: the blank line adds no directory key and changes neither the current
  directory nor the base path, and it appends the empty filename to the list of the
  current directory; when the current directory is not a key, which is the case before
  the first header, the parse fails with \<open>KeyError\<close>.
\<close>

theorem blank_line_is_entry:
  assumes "rstrip raw = []" and "parse_loop parse_init pre = Inr st"
  shows "(folder_path st \<notin> set (dict_keys (file_content st)) \<longrightarrow>
            Comparer_parse (pre @ raw # post) = Inl (KeyError (folder_path st))) \<and>
         (file_content st = d1 @ (folder_path st, fs) # d2 \<and> folder_path st \<notin> set (dict_keys d1) \<longrightarrow>
            parse_loop parse_init (pre @ [raw]) =
              Inr (st\<lparr>file_content := d1 @ (folder_path st, fs @ [[]]) # d2\<rparr>))"
proof -
  have pl: "parse_line st raw =
      (case dict_append (file_content st) (folder_path st) [] of
         Inl e \<Rightarrow> Inl e
       | Inr d \<Rightarrow> Inr (st\<lparr>file_content := d\<rparr>))"
    using assms(1) parse_line_other[of raw st]
    by (simp add: blank_not_header blank_not_summary blank_file_name)
  have a: "Comparer_parse (pre @ raw # post) = Inl (KeyError (folder_path st))"
    if "folder_path st \<notin> set (dict_keys (file_content st))"
    using that assms(2) pl
    by (simp add: Comparer_parse_def parse_loop_append dict_append_Inl)
  have b: "parse_loop parse_init (pre @ [raw]) =
              Inr (st\<lparr>file_content := d1 @ (folder_path st, fs @ [[]]) # d2\<rparr>)"
    if "file_content st = d1 @ (folder_path st, fs) # d2" "folder_path st \<notin> set (dict_keys d1)"
    using that assms(2) pl
    by (simp add: parse_loop_append dict_append_Inr)
  show ?thesis using a b by blast
qed

theorem blank_line_is_entry_witness:
  "rstrip '' '' = [] \<and>
   parse_loop parse_init [''./r/d:'', ''x.txt''] =
     Inr \<lparr>folder_path = ''d'', file_content = [(''d'', [''x.txt''])],
          path_parser = \<lparr>base_path = Some ''./r''\<rparr>\<rparr> \<and>
   parse_loop parse_init ([''./r/d:'', ''x.txt''] @ ['' '']) =
     Inr \<lparr>folder_path = ''d'', file_content = [(''d'', [''x.txt'', []])],
          path_parser = \<lparr>base_path = Some ''./r''\<rparr>\<rparr>"
proof -
  have h1: "rstrip '' '' = []" by code_simp
  have h2: "parse_loop parse_init [''./r/d:'', ''x.txt''] =
     Inr \<lparr>folder_path = ''d'', file_content = [(''d'', [''x.txt''])],
          path_parser = \<lparr>base_path = Some ''./r''\<rparr>\<rparr>" by code_simp
  show ?thesis
    using blank_line_is_entry [OF h1 h2, of "[]" "[]" "[''x.txt'']" "[]"] h1 h2
    by (simp add: dict_keys_def)
qed

text \<open>
  C2 as stated fails: a blank line after the entry \<open>x.txt\<close> of directory \<open>d\<close> is recorded
  as a second entry of \<open>d\<close> with the empty filename, and a blank line before the first
  header turns a listing that parses into a \<open>KeyError\<close>.
\<close>

theorem blank_line_counterexample:
  "rstrip '' '' = [] \<and>
   Comparer_parse [''./r/d:'', ''x.txt''] = Inr [(''d'', [''x.txt''])] \<and>
   Comparer_parse [''./r/d:'', ''x.txt'', '' ''] = Inr [(''d'', [''x.txt'', []])] \<and>
   Comparer_parse [''./r/d:''] = Inr [(''d'', [])] \<and>
   Comparer_parse ['' '', ''./r/d:''] = Inl (KeyError [])"
  by code_simp



text \<open>
  C5 (as the code has it). For an entry line processed while the current directory is
  registered, the filename appended to the list of that directory is the part after the
  last space character of the line, right-trimmed and with leading and trailing \<open>/\<close>
  stripped: the stripped line is \<open>pre @ name\<close> where \<open>name\<close> contains no space and \<open>pre\<close> is
  empty or ends with a space. Only the space character separates; nothing else of the
  state changes.
\<close>

theorem entry_file_name_after_last_space:
  assumes "is_entry_line raw"
    and "file_content st = d1 @ (folder_path st, fs) # d2"
    and "folder_path st \<notin> set (dict_keys d1)"
  shows "\<exists>pre name.
           rstrip_char CHR ''/'' (lstrip_char CHR ''/'' (rstrip raw)) = pre @ name \<and>
           CHR '' '' \<notin> set name \<and> (pre = [] \<or> last pre = CHR '' '') \<and>
           parse_line st raw =
             Inr (st\<lparr>file_content := d1 @ (folder_path st, fs @ [name]) # d2\<rparr>)"
proof -
  define s where "s = rstrip_char CHR ''/'' (lstrip_char CHR ''/'' (rstrip raw))"
  define name where "name = rev (takeWhile (\<lambda>x. x \<noteq> CHR '' '') (rev s))"
  define pre where "pre = rev (dropWhile (\<lambda>x. x \<noteq> CHR '' '') (rev s))"
  have fn: "entry_file_name raw = name"
    by (simp add: entry_file_name_def last_split_sep name_def s_def)
  have "rev (pre @ name) = rev s"
    unfolding pre_def name_def by simp
  then have sp: "s = pre @ name" using rev_is_rev_conv by metis
  have ns: "CHR '' '' \<notin> set name"
    unfolding name_def using set_takeWhileD[of "CHR '' ''" "\<lambda>x. x \<noteq> CHR '' ''" "rev s"] by auto
  have lp: "pre = [] \<or> last pre = CHR '' ''"
  proof (cases "dropWhile (\<lambda>x. x \<noteq> CHR '' '') (rev s)")
    case Nil
    then show ?thesis by (simp add: pre_def)
  next
    case (Cons x xs)
    then have "x = CHR '' ''" using hd_dropWhile[of "\<lambda>x. x \<noteq> CHR '' ''" "rev s"] by simp
    then show ?thesis unfolding pre_def Cons by simp
  qed
  have "parse_line st raw =
          Inr (st\<lparr>file_content := d1 @ (folder_path st, fs @ [name]) # d2\<rparr>)"
    using assms parse_line_other[of raw st]
    by (simp add: is_entry_line_def fn dict_append_Inr)
  then show ?thesis using sp ns lp unfolding s_def by blast
qed

theorem entry_file_name_after_last_space_witness:
  "is_entry_line ''-rw-r--r-- 1 u g 0 Jan  1 00:00 x.txt'' \<and>
   parse_line \<lparr>folder_path = ''d'', file_content = [(''d'', [])],
               path_parser = \<lparr>base_path = Some ''./r''\<rparr>\<rparr>
              ''-rw-r--r-- 1 u g 0 Jan  1 00:00 x.txt'' =
     Inr \<lparr>folder_path = ''d'', file_content = [(''d'', [''x.txt''])],
          path_parser = \<lparr>base_path = Some ''./r''\<rparr>\<rparr> \<and>
   (\<exists>pre name.
      rstrip_char CHR ''/'' (lstrip_char CHR ''/'' (rstrip ''-rw-r--r-- 1 u g 0 Jan  1 00:00 x.txt''))
        = pre @ name \<and>
      CHR '' '' \<notin> set name \<and> (pre = [] \<or> last pre = CHR '' '') \<and>
      parse_line \<lparr>folder_path = ''d'', file_content = [(''d'', [])],
                  path_parser = \<lparr>base_path = Some ''./r''\<rparr>\<rparr>
                 ''-rw-r--r-- 1 u g 0 Jan  1 00:00 x.txt'' =
        Inr (\<lparr>folder_path = ''d'', file_content = [(''d'', [])],
               path_parser = \<lparr>base_path = Some ''./r''\<rparr>\<rparr>
             \<lparr>file_content := [] @ (''d'', [] @ [name]) # []\<rparr>))"
proof -
  have h1: "is_entry_line ''-rw-r--r-- 1 u g 0 Jan  1 00:00 x.txt''" by code_simp
  have e: "parse_line \<lparr>folder_path = ''d'', file_content = [(''d'', [])],
               path_parser = \<lparr>base_path = Some ''./r''\<rparr>\<rparr>
              ''-rw-r--r-- 1 u g 0 Jan  1 00:00 x.txt'' =
     Inr \<lparr>folder_path = ''d'', file_content = [(''d'', [''x.txt''])],
          path_parser = \<lparr>base_path = Some ''./r''\<rparr>\<rparr>" by code_simp
  show ?thesis
    using entry_file_name_after_last_space [OF h1,
        of "\<lparr>folder_path = ''d'', file_content = [(''d'', [])],
               path_parser = \<lparr>base_path = Some ''./r''\<rparr>\<rparr>" "[]" "[]" "[]"] h1 e
    by (simp add: dict_keys_def)
qed

text \<open>
  C5 as stated fails: in the entry line \<open>a<TAB>b\<close> the last whitespace-separated token is
  \<open>b\<close>, and the filename recorded is the whole line \<open>a<TAB>b\<close>, because the line is split at
  space characters only.
\<close>

theorem entry_file_name_tab_counterexample:
  "is_entry_line [CHR ''a'', CHR 0x09, CHR ''b''] \<and>
   Comparer_parse [''./r/d:'', [CHR ''a'', CHR 0x09, CHR ''b'']] =
     Inr [(''d'', [[CHR ''a'', CHR 0x09, CHR ''b'']])] \<and>
   spec_last_whitespace_token
     (rstrip_char CHR ''/'' (lstrip_char CHR ''/'' [CHR ''a'', CHR 0x09, CHR ''b''])) = ''b''"
  by code_simp

end
